theory Spec2Isabelle
  imports
    Complex_Main
    "HOL-Library.Word"
    "HOL-Library.Char_ord"
    "HOL-Library.List_Lexorder"
    "HOL-Library.Multiset"
begin

unbundle bit_operations_syntax

section \<open>The budget tracker: accounts, transactions and monthly totals\<close>

text \<open>
  This theory embeds \<^verbatim>\<open>budget_tracker_app.py\<close>. The program keeps all of its state in
  an SQLite file with two tables and reads it afresh in every function, so the embedding
  passes the database around explicitly as a value of type \<open>store\<close>. Every Python function
  that touches the database becomes a function from the store (and the function's
  arguments) to either an error or a result together with the store it leaves behind.

  Conventions of the model:
  \<^item> A Python \<^verbatim>\<open>str\<close> is modelled by the list of bytes of its UTF-8 encoding, type
    \<open>string\<close>. SQLite compares \<^verbatim>\<open>TEXT\<close> values bytewise; so does the order on
    \<open>string\<close> used here (characters by their code, lists lexicographically).
  \<^item> The session value \<^verbatim>\<open>st.session_state.user_id\<close> is an explicit argument.
  \<^item> An \<^verbatim>\<open>amount REAL\<close> is an exact real number: rounding of floating point sums is
    not part of the model.
  \<^item> Row ids are integers without an upper bound. Failures of the storage itself
    (a locked or full database, an exhausted 64-bit row id) are not part of the model.
  \<^item> A raised exception is a result \<open>Inl e\<close>. Every statement of the program that can
    raise does so before it has changed anything, so the store after an exception is the
    store before the call.
\<close>

subsection \<open>Errors\<close>

datatype error =
    OperationalError   \<comment> \<open>\<^verbatim>\<open>sqlite3.OperationalError\<close>: no such table, no such column\<close>
  | IntegrityError     \<comment> \<open>\<^verbatim>\<open>sqlite3.IntegrityError\<close>: UNIQUE constraint failed\<close>
  | DatabaseError      \<comment> \<open>\<^verbatim>\<open>pandas.errors.DatabaseError\<close>: the query of \<^verbatim>\<open>read_sql_query\<close> failed\<close>
  | ValueError         \<comment> \<open>\<^verbatim>\<open>pd.to_datetime\<close> could not read a date\<close>
  | IndexError         \<comment> \<open>\<^verbatim>\<open>iloc[-1]\<close> on an empty frame\<close>

definition bind :: "error + 'a \<Rightarrow> ('a \<Rightarrow> error + 'b) \<Rightarrow> error + 'b" where
  "bind m f = (case m of Inl e \<Rightarrow> Inl e | Inr x \<Rightarrow> f x)"

subsection \<open>Password hashing: SHA-256\<close>

text \<open>
  \<^verbatim>\<open>hash_pwd\<close> is \<^verbatim>\<open>hashlib.sha256(pwd.encode()).hexdigest()\<close>. The hash function is
  written out here after FIPS 180-4 on 32-bit words, so that \<open>hash_pwd\<close> is a concrete,
  computable function on byte strings.
\<close>

type_synonym w32 = "32 word"

definition rotr :: "nat \<Rightarrow> w32 \<Rightarrow> w32" where
  "rotr n x = or (drop_bit n x) (push_bit (32 - n) x)"

definition Ch :: "w32 \<Rightarrow> w32 \<Rightarrow> w32 \<Rightarrow> w32" where
  "Ch x y z = xor (and x y) (and (not x) z)"

definition Maj :: "w32 \<Rightarrow> w32 \<Rightarrow> w32 \<Rightarrow> w32" where
  "Maj x y z = xor (xor (and x y) (and x z)) (and y z)"

definition bsig0 :: "w32 \<Rightarrow> w32" where
  "bsig0 x = xor (xor (rotr 2 x) (rotr 13 x)) (rotr 22 x)"

definition bsig1 :: "w32 \<Rightarrow> w32" where
  "bsig1 x = xor (xor (rotr 6 x) (rotr 11 x)) (rotr 25 x)"

definition ssig0 :: "w32 \<Rightarrow> w32" where
  "ssig0 x = xor (xor (rotr 7 x) (rotr 18 x)) (drop_bit 3 x)"

definition ssig1 :: "w32 \<Rightarrow> w32" where
  "ssig1 x = xor (xor (rotr 17 x) (rotr 19 x)) (drop_bit 10 x)"

definition round_constants :: "w32 list" where
  "round_constants =
    [1116352408, 1899447441, 3049323471, 3921009573, 961987163, 1508970993, 2453635748,
     2870763221, 3624381080, 310598401, 607225278, 1426881987, 1925078388, 2162078206,
     2614888103, 3248222580, 3835390401, 4022224774, 264347078, 604807628, 770255983,
     1249150122, 1555081692, 1996064986, 2554220882, 2821834349, 2952996808, 3210313671,
     3336571891, 3584528711, 113926993, 338241895, 666307205, 773529912, 1294757372,
     1396182291, 1695183700, 1986661051, 2177026350, 2456956037, 2730485921, 2820302411,
     3259730800, 3345764771, 3516065817, 3600352804, 4094571909, 275423344, 430227734,
     506948616, 659060556, 883997877, 958139571, 1322822218, 1537002063, 1747873779,
     1955562222, 2024104815, 2227730452, 2361852424, 2428436474, 2756734187, 3204031479,
     3329325298]"

definition initial_hash :: "w32 list" where
  "initial_hash =
    [1779033703, 3144134277, 1013904242, 2773480762, 1359893119, 2600822924, 528734635,
     1541459225]"

fun be32 :: "string \<Rightarrow> w32 list" where
  "be32 (a # b # c # d # r) =
     (push_bit 24 (of_char a) + push_bit 16 (of_char b) + push_bit 8 (of_char c) + of_char d)
       # be32 r"
| "be32 _ = []"

fun schedule :: "nat \<Rightarrow> w32 list \<Rightarrow> w32 list" where
  "schedule 0 ws = []"
| "schedule (Suc n) ws =
     (let w = ssig1 (ws ! 14) + ws ! 9 + ssig0 (ws ! 1) + ws ! 0
      in w # schedule n (tl ws @ [w]))"

fun sha_round :: "w32 list \<Rightarrow> w32 \<times> w32 \<Rightarrow> w32 list" where
  "sha_round [a, b, c, d, e, f, g, h] (k, w) =
     (let t1 = h + bsig1 e + Ch e f g + k + w; t2 = bsig0 a + Maj a b c
      in [t1 + t2, a, b, c, d + t1, e, f, g])"
| "sha_round st _ = st"

definition compress :: "w32 list \<Rightarrow> w32 list \<Rightarrow> w32 list" where
  "compress hs blk =
     map2 (+) hs (foldl sha_round hs (zip round_constants (blk @ schedule 48 blk)))"

fun blocks :: "nat \<Rightarrow> w32 list \<Rightarrow> w32 list list" where
  "blocks 0 ws = []"
| "blocks (Suc n) ws = take 16 ws # blocks n (drop 16 ws)"

definition pad :: "string \<Rightarrow> string" where
  "pad m =
     (let l = length m; bits = (word_of_nat (8 * l) :: 64 word)
      in m @ [char_of (128 :: nat)] @ replicate ((119 - l mod 64) mod 64) (char_of (0 :: nat))
           @ map (\<lambda>i. char_of (unat (drop_bit (8 * (7 - i)) bits))) [0..<8])"

definition sha256 :: "string \<Rightarrow> w32 list" where
  "sha256 m = (let ws = be32 (pad m) in foldl compress initial_hash (blocks (length ws div 16) ws))"

definition hexdigit :: "nat \<Rightarrow> char" where
  "hexdigit n = (if n < 10 then char_of (48 + n) else char_of (87 + n))"

definition hex32 :: "w32 \<Rightarrow> string" where
  "hex32 w = map (\<lambda>i. hexdigit (unat (and (drop_bit (4 * (7 - i)) w) 15))) [0..<8]"

definition hexdigest :: "w32 list \<Rightarrow> string" where
  "hexdigest ws = concat (map hex32 ws)"

definition hash_pwd :: "string \<Rightarrow> string" where
  "hash_pwd pwd = hexdigest (sha256 pwd)"

subsection \<open>The database\<close>

text \<open>
  Table \<^verbatim>\<open>users(id INTEGER PRIMARY KEY AUTOINCREMENT, username TEXT UNIQUE, password TEXT)\<close>.
  The column \<^verbatim>\<open>id\<close> is the field \<open>uid\<close>. A table declared \<^verbatim>\<open>AUTOINCREMENT\<close> remembers
  the largest row id it has ever given out (SQLite keeps it in \<^verbatim>\<open>sqlite_sequence\<close>): the
  field \<open>user_seq\<close>.
\<close>

record user =
  uid :: int
  username :: string
  password :: string

record users_table =
  user_rows :: "user list"
  user_seq :: int

text \<open>
  Table \<^verbatim>\<open>transactions\<close>. \<^verbatim>\<open>ensure_schema\<close> creates it with the four columns of
  \<open>tx_legacy\<close> and then adds \<^verbatim>\<open>user_id\<close>; a table on disk is therefore in one of two
  shapes, \<open>Legacy\<close> (no \<^verbatim>\<open>user_id\<close> column) or \<open>Current\<close>. The column \<^verbatim>\<open>id\<close> is the field
  \<open>tx_id\<close>; \<^verbatim>\<open>user_id\<close> may hold \<^verbatim>\<open>NULL\<close>, the value \<open>None\<close>.
\<close>

record tx_legacy =
  tx_id :: int
  date :: string
  category :: string
  amount :: real

record tx = tx_legacy +
  user_id :: "int option"

datatype tx_rows = Legacy "tx_legacy list" | Current "tx list"

record tx_table =
  tx_rows :: tx_rows
  tx_seq :: int

record store =
  users :: "users_table option"
  transactions :: "tx_table option"

definition empty_store :: store where
  "empty_store = \<lparr>users = None, transactions = None\<rparr>"

text \<open>
  The row id SQLite chooses for an insert into an \<^verbatim>\<open>AUTOINCREMENT\<close> table: one more than
  the largest id in the table and than the largest id ever given out.
\<close>

definition new_rowid :: "int \<Rightarrow> int list \<Rightarrow> int" where
  "new_rowid seq ids = max (seq + 1) (if ids = [] then 1 else Max (set ids) + 1)"

subsection \<open>The SQL statements\<close>

text \<open>Each statement the program executes, as a function on the store.\<close>

definition create_table_users :: "store \<Rightarrow> store" where
  \<comment> \<open>\<^verbatim>\<open>CREATE TABLE IF NOT EXISTS users(...)\<close>\<close>
  "create_table_users s =
     (case users s of
        None \<Rightarrow> s\<lparr>users := Some \<lparr>user_rows = [], user_seq = 0\<rparr>\<rparr>
      | Some _ \<Rightarrow> s)"

definition count_users :: "store \<Rightarrow> error + nat" where
  \<comment> \<open>\<^verbatim>\<open>SELECT COUNT(*) FROM users\<close>\<close>
  "count_users s =
     (case users s of
        None \<Rightarrow> Inl OperationalError
      | Some t \<Rightarrow> Inr (length (user_rows t)))"

definition insert_user :: "string \<Rightarrow> string \<Rightarrow> store \<Rightarrow> error + store" where
  \<comment> \<open>\<^verbatim>\<open>INSERT INTO users(username, password) VALUES(?,?)\<close>\<close>
  "insert_user name pw s =
     (case users s of
        None \<Rightarrow> Inl OperationalError
      | Some t \<Rightarrow>
          if name \<in> set (map username (user_rows t)) then Inl IntegrityError
          else
            let i = new_rowid (user_seq t) (map uid (user_rows t))
            in Inr (s\<lparr>users := Some
                 \<lparr>user_rows = user_rows t @ [\<lparr>uid = i, username = name, password = pw\<rparr>],
                  user_seq = i\<rparr>\<rparr>))"

definition select_user_by_name :: "store \<Rightarrow> string \<Rightarrow> error + user option" where
  \<comment> \<open>\<^verbatim>\<open>SELECT id, password FROM users WHERE username=?\<close>, then \<^verbatim>\<open>fetchone()\<close>\<close>
  "select_user_by_name s name =
     (case users s of
        None \<Rightarrow> Inl OperationalError
      | Some t \<Rightarrow>
          (case filter (\<lambda>r. username r = name) (user_rows t) of
             [] \<Rightarrow> Inr None
           | row # _ \<Rightarrow> Inr (Some row)))"

definition select_user_by_id :: "store \<Rightarrow> int \<Rightarrow> error + user option" where
  \<comment> \<open>\<^verbatim>\<open>SELECT username FROM users WHERE id=?\<close>, then \<^verbatim>\<open>fetchone()\<close>\<close>
  "select_user_by_id s i =
     (case users s of
        None \<Rightarrow> Inl OperationalError
      | Some t \<Rightarrow>
          (case filter (\<lambda>r. uid r = i) (user_rows t) of
             [] \<Rightarrow> Inr None
           | row # _ \<Rightarrow> Inr (Some row)))"

definition update_password :: "string \<Rightarrow> int \<Rightarrow> store \<Rightarrow> error + store" where
  \<comment> \<open>\<^verbatim>\<open>UPDATE users SET password=? WHERE id=?\<close>\<close>
  "update_password pw i s =
     (case users s of
        None \<Rightarrow> Inl OperationalError
      | Some t \<Rightarrow>
          Inr (s\<lparr>users := Some (t\<lparr>user_rows :=
                 map (\<lambda>r. if uid r = i then r\<lparr>password := pw\<rparr> else r) (user_rows t)\<rparr>)\<rparr>))"

definition create_table_transactions :: "store \<Rightarrow> store" where
  \<comment> \<open>\<^verbatim>\<open>CREATE TABLE IF NOT EXISTS transactions(id, date, category, amount)\<close>\<close>
  "create_table_transactions s =
     (case transactions s of
        None \<Rightarrow> s\<lparr>transactions := Some \<lparr>tx_rows = Legacy [], tx_seq = 0\<rparr>\<rparr>
      | Some _ \<Rightarrow> s)"

definition table_info_transactions :: "store \<Rightarrow> string list" where
  \<comment> \<open>the column names listed by \<^verbatim>\<open>PRAGMA table_info(transactions)\<close>\<close>
  "table_info_transactions s =
     (case transactions s of
        None \<Rightarrow> []
      | Some t \<Rightarrow>
          (case tx_rows t of
             Legacy _ \<Rightarrow> [''id'', ''date'', ''category'', ''amount'']
           | Current _ \<Rightarrow> [''id'', ''date'', ''category'', ''amount'', ''user_id'']))"

definition add_column_user_id :: "store \<Rightarrow> error + store" where
  \<comment> \<open>\<^verbatim>\<open>ALTER TABLE transactions ADD COLUMN user_id INTEGER\<close>: the new column holds NULL\<close>
  "add_column_user_id s =
     (case transactions s of
        None \<Rightarrow> Inl OperationalError
      | Some t \<Rightarrow>
          (case tx_rows t of
             Current _ \<Rightarrow> Inl OperationalError
           | Legacy rows \<Rightarrow>
               Inr (s\<lparr>transactions := Some (t\<lparr>tx_rows := Current
                 (map (\<lambda>r. \<lparr>tx_id = tx_id r, date = date r, category = category r,
                             amount = amount r, user_id = None\<rparr>) rows)\<rparr>)\<rparr>)))"

definition backfill_user_id :: "store \<Rightarrow> error + store" where
  \<comment> \<open>\<^verbatim>\<open>UPDATE transactions SET user_id = 1 WHERE user_id IS NULL\<close>\<close>
  "backfill_user_id s =
     (case transactions s of
        None \<Rightarrow> Inl OperationalError
      | Some t \<Rightarrow>
          (case tx_rows t of
             Legacy _ \<Rightarrow> Inl OperationalError
           | Current rows \<Rightarrow>
               Inr (s\<lparr>transactions := Some (t\<lparr>tx_rows := Current
                 (map (\<lambda>r. if user_id r = None then r\<lparr>user_id := Some 1\<rparr> else r) rows)\<rparr>)\<rparr>)))"

definition insert_transaction ::
  "string \<Rightarrow> string \<Rightarrow> real \<Rightarrow> int \<Rightarrow> store \<Rightarrow> error + store" where
  \<comment> \<open>\<^verbatim>\<open>INSERT INTO transactions(date, category, amount, user_id) VALUES(?,?,?,?)\<close>\<close>
  "insert_transaction d c a u s =
     (case transactions s of
        None \<Rightarrow> Inl OperationalError
      | Some t \<Rightarrow>
          (case tx_rows t of
             Legacy _ \<Rightarrow> Inl OperationalError
           | Current rows \<Rightarrow>
               let i = new_rowid (tx_seq t) (map tx_id rows)
               in Inr (s\<lparr>transactions := Some
                    \<lparr>tx_rows = Current (rows @
                       [\<lparr>tx_id = i, date = d, category = c, amount = a, user_id = Some u\<rparr>]),
                     tx_seq = i\<rparr>\<rparr>)))"


definition delete_transaction :: "int \<Rightarrow> int \<Rightarrow> store \<Rightarrow> error + store" where
  \<comment> \<open>\<^verbatim>\<open>DELETE FROM transactions WHERE id=? AND user_id=?\<close>\<close>
  "delete_transaction i u s =
     (case transactions s of
        None \<Rightarrow> Inl OperationalError
      | Some t \<Rightarrow>
          (case tx_rows t of
             Legacy _ \<Rightarrow> Inl OperationalError
           | Current rows \<Rightarrow>
               Inr (s\<lparr>transactions := Some (t\<lparr>tx_rows := Current
                 (filter (\<lambda>r. \<not> (tx_id r = i \<and> user_id r = Some u)) rows)\<rparr>)\<rparr>)))"

subsection \<open>Schema manager and account service\<close>

definition ensure_schema :: "store \<Rightarrow> error + store" where
  "ensure_schema s0 =
     (let s1 = create_table_users s0
      in bind (count_users s1) (\<lambda>n.
         bind (if n = 0 then insert_user ''admin'' (hash_pwd ''admin'') s1 else Inr s1) (\<lambda>s2.
         let s3 = create_table_transactions s2;
             cols = table_info_transactions s3
         in if ''user_id'' \<notin> set cols
            then bind (add_column_user_id s3) backfill_user_id
            else Inr s3)))"

definition authenticate :: "store \<Rightarrow> string \<Rightarrow> string \<Rightarrow> error + int option" where
  "authenticate s name pwd =
     bind (select_user_by_name s name) (\<lambda>row.
       case row of
         None \<Rightarrow> Inr None
       | Some r \<Rightarrow> if password r = hash_pwd pwd then Inr (Some (uid r)) else Inr None)"

definition get_username :: "store \<Rightarrow> int \<Rightarrow> error + string" where
  "get_username s i =
     bind (select_user_by_id s i) (\<lambda>row.
       case row of None \<Rightarrow> Inr ''unknown'' | Some r \<Rightarrow> Inr (username r))"

definition change_password :: "store \<Rightarrow> int \<Rightarrow> string \<Rightarrow> error + store" where
  "change_password s i new_pwd = update_password (hash_pwd new_pwd) i s"

text \<open>
  \<^verbatim>\<open>create_user\<close> catches \<^verbatim>\<open>sqlite3.IntegrityError\<close> and nothing else; the result is the
  returned boolean and the store after the call.
\<close>

definition create_user :: "store \<Rightarrow> string \<Rightarrow> string \<Rightarrow> error + bool \<times> store" where
  "create_user s name pwd =
     (case insert_user name (hash_pwd pwd) s of
        Inr s' \<Rightarrow> Inr (True, s')
      | Inl IntegrityError \<Rightarrow> Inr (False, s)
      | Inl e \<Rightarrow> Inl e)"

subsection \<open>Dates\<close>

text \<open>
  A \<^verbatim>\<open>datetime.date\<close>. Python only builds valid dates (\<open>valid_date\<close>);
  \<^verbatim>\<open>date.isoformat()\<close> prints \<^verbatim>\<open>"%04d-%02d-%02d"\<close>, which for a valid date is the ten
  characters below.
\<close>

record pydate =
  year :: nat
  month :: nat
  day :: nat

definition is_leap :: "nat \<Rightarrow> bool" where
  "is_leap y = (y mod 4 = 0 \<and> (y mod 100 \<noteq> 0 \<or> y mod 400 = 0))"

definition days_in_month :: "nat \<Rightarrow> nat \<Rightarrow> nat" where
  "days_in_month y m =
     (if m = 2 then (if is_leap y then 29 else 28)
      else if m = 4 \<or> m = 6 \<or> m = 9 \<or> m = 11 then 30 else 31)"

definition valid_date :: "pydate \<Rightarrow> bool" where
  "valid_date d =
     (1 \<le> year d \<and> year d \<le> 9999 \<and> 1 \<le> month d \<and> month d \<le> 12 \<and>
      1 \<le> day d \<and> day d \<le> days_in_month (year d) (month d))"

definition digit :: "nat \<Rightarrow> char" where
  "digit n = char_of (48 + n mod 10)"

definition isoformat :: "pydate \<Rightarrow> string" where
  "isoformat d =
     [digit (year d div 1000), digit (year d div 100), digit (year d div 10), digit (year d),
      CHR ''-'', digit (month d div 10), digit (month d),
      CHR ''-'', digit (day d div 10), digit (day d)]"

text \<open>
  \<^verbatim>\<open>pd.to_datetime\<close> on a column of strings. pandas reads many notations; the model
  reads the one the program writes (\<^verbatim>\<open>add_tx\<close> stores \<^verbatim>\<open>date.isoformat()\<close>) and raises on
  every other string. pandas keeps a time stamp as 64-bit nanoseconds, which spans
  1677-09-21 to 2262-04-11; the model accepts the whole years in between. One string
  that cannot be read fails the whole column.
\<close>

definition is_digit :: "char \<Rightarrow> bool" where
  "is_digit c = (48 \<le> (of_char c :: nat) \<and> (of_char c :: nat) \<le> 57)"

definition digit_val :: "char \<Rightarrow> nat" where
  "digit_val c = of_char c - 48"

definition number :: "string \<Rightarrow> nat" where
  "number cs = foldl (\<lambda>n c. 10 * n + digit_val c) 0 cs"

fun parse_date :: "string \<Rightarrow> error + pydate" where
  "parse_date [y1, y2, y3, y4, s1, m1, m2, s2, d1, d2] =
     (if s1 = CHR ''-'' \<and> s2 = CHR ''-'' \<and> list_all is_digit [y1, y2, y3, y4, m1, m2, d1, d2]
      then
        let d = \<lparr>year = number [y1, y2, y3, y4], month = number [m1, m2],
                 day = number [d1, d2]\<rparr>
        in if valid_date d \<and> 1678 \<le> year d \<and> year d \<le> 2261 then Inr d else Inl ValueError
      else Inl ValueError)"
| "parse_date _ = Inl ValueError"

fun to_datetime :: "string list \<Rightarrow> error + pydate list" where
  "to_datetime [] = Inr []"
| "to_datetime (s # ss) =
     bind (parse_date s) (\<lambda>d. bind (to_datetime ss) (\<lambda>ds. Inr (d # ds)))"


subsection \<open>Transaction service\<close>

definition add_tx :: "store \<Rightarrow> int \<Rightarrow> pydate \<Rightarrow> string \<Rightarrow> real \<Rightarrow> error + store" where
  "add_tx s user d c a = insert_transaction (isoformat d) c a user s"

text \<open>
  The data frame \<^verbatim>\<open>fetch_tx\<close> returns: the columns of the table and the column
  \<^verbatim>\<open>Month\<close> that line 106 adds. An empty frame is returned as it is.
\<close>

record df_row = tx +
  Month :: string



definition delete_tx :: "store \<Rightarrow> int \<Rightarrow> int \<Rightarrow> error + store" where
  "delete_tx s user i = delete_transaction i user s"

subsection \<open>Aggregation\<close>




subsection \<open>The words of the specification\<close>



text \<open>The constraints SQLite keeps on \<^verbatim>\<open>users\<close>: the primary key and \<^verbatim>\<open>UNIQUE\<close>.\<close>

definition users_ok :: "store \<Rightarrow> bool" where
  "users_ok s =
     (case users s of
        None \<Rightarrow> False
      | Some t \<Rightarrow> distinct (map uid (user_rows t)) \<and> distinct (map username (user_rows t)))"

subsection \<open>Example stores\<close>

text \<open>The store \<^verbatim>\<open>ensure_schema\<close> builds when there is no database yet.\<close>

definition seeded_store :: store where
  "seeded_store =
     \<lparr>users = Some \<lparr>user_rows = [\<lparr>uid = 1, username = ''admin'',
                                     password = hash_pwd ''admin''\<rparr>],
                     user_seq = 1\<rparr>,
      transactions = Some \<lparr>tx_rows = Current [], tx_seq = 0\<rparr>\<rparr>"

text \<open>After the seeded store, \<^verbatim>\<open>create_user("Admin", "pw")\<close>.\<close>

definition two_admins :: store where
  "two_admins =
     \<lparr>users = Some \<lparr>user_rows =
                       [\<lparr>uid = 1, username = ''admin'', password = hash_pwd ''admin''\<rparr>,
                        \<lparr>uid = 2, username = ''Admin'', password = hash_pwd ''pw''\<rparr>],
                     user_seq = 2\<rparr>,
      transactions = Some \<lparr>tx_rows = Current [], tx_seq = 0\<rparr>\<rparr>"

text \<open>
  Two users and four transactions: the three of the spec's example for user 1, entered out
  of date order, and one of user 2.
\<close>

definition example_rows :: "tx list" where
  "example_rows =
     [\<lparr>tx_id = 1, date = ''2024-02-01'', category = ''bonus'', amount = 500, user_id = Some 1\<rparr>,
      \<lparr>tx_id = 2, date = ''2024-01-15'', category = ''salary'', amount = 1000,
        user_id = Some 1\<rparr>,
      \<lparr>tx_id = 3, date = ''2024-01-20'', category = ''rent'', amount = - 200,
        user_id = Some 1\<rparr>,
      \<lparr>tx_id = 4, date = ''2024-01-20'', category = ''gift'', amount = 300, user_id = Some 2\<rparr>]"

definition example_store :: store where
  "example_store = two_admins\<lparr>transactions := Some \<lparr>tx_rows = Current example_rows, tx_seq = 4\<rparr>\<rparr>"


text \<open>
  Claim C10 speaks of usernames that differ only in letter case: different strings that
  become equal when the ASCII capitals are replaced by their small letters.
\<close>

definition lower :: "char \<Rightarrow> char" where
  "lower c = (if 65 \<le> (of_char c :: nat) \<and> (of_char c :: nat) \<le> 90
              then char_of (of_char c + 32 :: nat) else c)"

definition differs_only_in_case :: "string \<Rightarrow> string \<Rightarrow> bool" where
  "differs_only_in_case u v = (u \<noteq> v \<and> map lower u = map lower v)"

text \<open>
  Words for the statements about \<^verbatim>\<open>fetch_tx\<close>: a stored date is an ISO date when
  \<^verbatim>\<open>pd.to_datetime\<close> (as modelled) reads it, and \<open>with_month\<close> is the frame row for a table
  row: the same columns and the first seven characters of the date as \<^verbatim>\<open>Month\<close>.
\<close>

definition is_iso_date :: "string \<Rightarrow> bool" where
  "is_iso_date s = (case parse_date s of Inr _ \<Rightarrow> True | Inl _ \<Rightarrow> False)"

definition with_month :: "tx \<Rightarrow> df_row" where
  "with_month r =
     \<lparr>tx_id = tx_id r, date = date r, category = category r, amount = amount r,
      user_id = user_id r, Month = take 7 (date r)\<rparr>"




text \<open>
  The order of \<^verbatim>\<open>datetime.date\<close> values: Python compares year, month and day in this
  order.
\<close>

definition date_le :: "pydate \<Rightarrow> pydate \<Rightarrow> bool" where
  "date_le a b =
     (year a < year b \<or>
      year a = year b \<and> (month a < month b \<or> month a = month b \<and> day a \<le> day b))"

section \<open>Properties\<close>

subsection \<open>Results and errors\<close>

lemma bind_Inl [simp]: "bind (Inl e) f = Inl e"
  by (simp add: bind_def)

lemma bind_Inr [simp]: "bind (Inr x) f = f x"
  by (simp add: bind_def)

lemma bind_eq_Inr: "bind m f = Inr y \<longleftrightarrow> (\<exists>x. m = Inr x \<and> f x = Inr y)"
  by (cases m) simp_all

subsection \<open>Authentication\<close>

lemma filter_unique_username:
  assumes "distinct (map username rows)" and "r \<in> set rows"
  shows "filter (\<lambda>x. username x = username r) rows = [r]"
  using assms
proof (induction rows)
  case Nil
  then show ?case by simp
next
  case (Cons a rows)
  show ?case
  proof (cases "a = r")
    case True
    with Cons.prems have "username r \<notin> username ` set rows" by simp
    then have "filter (\<lambda>x. username x = username r) rows = []"
      unfolding filter_empty_conv by (metis imageI)
    with True show ?thesis by simp
  next
    case False
    with Cons.prems have "r \<in> set rows" by simp
    with Cons.prems have "username a \<noteq> username r" by force
    with Cons \<open>r \<in> set rows\<close> show ?thesis by simp
  qed
qed

text \<open>
  Claim C1. On a store whose \<^verbatim>\<open>users\<close> table exists (with its \<^verbatim>\<open>UNIQUE\<close> usernames),
  \<^verbatim>\<open>authenticate\<close> returns the id \<open>i\<close> exactly when a user with the given username, a
  stored hash equal to \<open>hash_pwd\<close> of the given password and the id \<open>i\<close> exists; it returns
  \<^verbatim>\<open>None\<close> exactly when no user has that username with that hash. The two cases cover
  every input, so it never raises. \<open>hash_pwd\<close> is a function of the plaintext alone: equal
  plaintexts have equal digests.
\<close>

theorem authenticate_correct:
  assumes "users s = Some t" and "distinct (map username (user_rows t))"
  shows "(authenticate s name pwd = Inr (Some i) \<longleftrightarrow>
            (\<exists>r \<in> set (user_rows t). username r = name \<and> password r = hash_pwd pwd \<and> uid r = i))
       \<and> (authenticate s name pwd = Inr None \<longleftrightarrow>
            \<not> (\<exists>r \<in> set (user_rows t). username r = name \<and> password r = hash_pwd pwd))
       \<and> (\<forall>p q. p = q \<longrightarrow> hash_pwd p = hash_pwd q)"
proof (cases "\<exists>r \<in> set (user_rows t). username r = name")
  case True
  then obtain r where r: "r \<in> set (user_rows t)" "username r = name" by blast
  with assms(2) have f: "filter (\<lambda>x. username x = name) (user_rows t) = [r]"
    using filter_unique_username by blast
  have only: "r' = r" if "r' \<in> set (user_rows t)" "username r' = name" for r'
  proof -
    from that have "r' \<in> set (filter (\<lambda>x. username x = name) (user_rows t))" by simp
    with f show "r' = r" by simp
  qed
  have ex: "(\<exists>r' \<in> set (user_rows t). username r' = name \<and> P r') \<longleftrightarrow> P r" for P
    using r only by blast
  have a: "authenticate s name pwd =
             (if password r = hash_pwd pwd then Inr (Some (uid r)) else Inr None)"
    using assms(1) f by (simp add: authenticate_def select_user_by_name_def)
  have c1: "authenticate s name pwd = Inr (Some i) \<longleftrightarrow>
            (\<exists>r \<in> set (user_rows t). username r = name \<and> password r = hash_pwd pwd \<and> uid r = i)"
    unfolding ex a by simp
  have c2: "authenticate s name pwd = Inr None \<longleftrightarrow>
            \<not> (\<exists>r \<in> set (user_rows t). username r = name \<and> password r = hash_pwd pwd)"
    unfolding ex a by simp
  from c1 c2 show ?thesis by simp
next
  case False
  then have "filter (\<lambda>x. username x = name) (user_rows t) = []"
    unfolding filter_empty_conv by blast
  then have a: "authenticate s name pwd = Inr None"
    using assms(1) by (simp add: authenticate_def select_user_by_name_def)
  from False
  have n: "(\<exists>r \<in> set (user_rows t). username r = name \<and> P r) \<longleftrightarrow> False" for P
    by blast
  show ?thesis unfolding a n by simp
qed

theorem authenticate_correct_witness:
  "users seeded_store =
     Some \<lparr>user_rows = [\<lparr>uid = 1, username = ''admin'', password = hash_pwd ''admin''\<rparr>],
           user_seq = 1\<rparr>
   \<and> authenticate seeded_store ''admin'' ''admin'' = Inr (Some 1)
   \<and> authenticate seeded_store ''bob'' ''admin'' = Inr None"
proof -
  let ?t = "\<lparr>user_rows = [\<lparr>uid = 1, username = ''admin'', password = hash_pwd ''admin''\<rparr>],
             user_seq = 1\<rparr>"
  have u: "users seeded_store = Some ?t" by (simp add: seeded_store_def)
  have d: "distinct (map username (user_rows ?t))" by simp
  from authenticate_correct [OF u d, of "''admin''" "''admin''" 1]
  have 1: "authenticate seeded_store ''admin'' ''admin'' = Inr (Some 1)" by simp
  from authenticate_correct [OF u d, of "''bob''" "''admin''" 0]
  have 2: "authenticate seeded_store ''bob'' ''admin'' = Inr None" by simp
  from u 1 2 show ?thesis by simp
qed

subsection \<open>The schema manager\<close>

lemma ensure_schema_total: "\<exists>s'. ensure_schema s = Inr s'"
  by (cases s)
     (auto simp: ensure_schema_def create_table_users_def count_users_def insert_user_def
        create_table_transactions_def table_info_transactions_def add_column_user_id_def
        backfill_user_id_def Let_def
        split: option.splits tx_rows.splits)

lemma ensure_schema_again:
  assumes "ensure_schema s = Inr s1"
  shows "ensure_schema s1 = Inr s1"
  using assms
  by (cases s)
     (auto simp: ensure_schema_def create_table_users_def count_users_def insert_user_def
        create_table_transactions_def table_info_transactions_def add_column_user_id_def
        backfill_user_id_def Let_def
        split: option.splits tx_rows.splits if_splits)

lemma ensure_schema_empty: "ensure_schema empty_store = Inr seeded_store"
  by (simp add: ensure_schema_def create_table_users_def count_users_def insert_user_def
        create_table_transactions_def table_info_transactions_def add_column_user_id_def
        backfill_user_id_def Let_def empty_store_def seeded_store_def new_rowid_def)

text \<open>
  Claim C5. \<^verbatim>\<open>ensure_schema\<close> returns on every store, and on the store it returned it
  returns that same store again: the second run adds no user and changes no row of either
  table. Run where there is no database yet, it leaves exactly one user, named
  \<^verbatim>\<open>admin\<close>, with id 1 and the password hash \<open>hash_pwd ''admin''\<close>, and an empty
  \<^verbatim>\<open>transactions\<close> table.
\<close>

theorem ensure_schema_idempotent:
  "(\<exists>s1. ensure_schema s = Inr s1 \<and> ensure_schema s1 = Inr s1)
   \<and> ensure_schema empty_store =
       Inr \<lparr>users = Some \<lparr>user_rows = [\<lparr>uid = 1, username = ''admin'',
                                           password = hash_pwd ''admin''\<rparr>],
                           user_seq = 1\<rparr>,
            transactions = Some \<lparr>tx_rows = Current [], tx_seq = 0\<rparr>\<rparr>"
proof -
  obtain s1 where "ensure_schema s = Inr s1" using ensure_schema_total by blast
  moreover from this have "ensure_schema s1 = Inr s1" by (rule ensure_schema_again)
  ultimately have "\<exists>s1. ensure_schema s = Inr s1 \<and> ensure_schema s1 = Inr s1" by blast
  with ensure_schema_empty show ?thesis by (simp add: seeded_store_def)
qed

subsection \<open>Creating users\<close>

lemma new_rowid_fresh: "new_rowid seq ids \<notin> set ids"
proof
  assume a: "new_rowid seq ids \<in> set ids"
  then have ne: "ids \<noteq> []" by auto
  from a have "new_rowid seq ids \<le> Max (set ids)" by simp
  moreover from ne have "Max (set ids) + 1 \<le> new_rowid seq ids"
    by (simp add: new_rowid_def)
  ultimately show False by simp
qed

lemma create_user_cases:
  "create_user s name pwd =
     (case users s of
        None \<Rightarrow> Inl OperationalError
      | Some t \<Rightarrow>
          if name \<in> set (map username (user_rows t)) then Inr (False, s)
          else Inr (True, s\<lparr>users := Some
                 \<lparr>user_rows = user_rows t @
                    [\<lparr>uid = new_rowid (user_seq t) (map uid (user_rows t)), username = name,
                      password = hash_pwd pwd\<rparr>],
                  user_seq = new_rowid (user_seq t) (map uid (user_rows t))\<rparr>\<rparr>))"
  by (simp add: create_user_def insert_user_def Let_def split: option.splits)

lemma create_Admin: "create_user seeded_store ''Admin'' ''pw'' = Inr (True, two_admins)"
  by (simp add: create_user_cases seeded_store_def two_admins_def new_rowid_def)

text \<open>
  Claim C6. If \<^verbatim>\<open>create_user(u, p1)\<close> returns true, the next \<^verbatim>\<open>create_user(u, p2)\<close>
  returns false (a returned value, not an exception) and leaves the store as the first call
  left it; the first call added exactly one row to \<^verbatim>\<open>users\<close>, so the number of users is
  one more after the two calls than before them.
\<close>

theorem create_user_twice:
  assumes "create_user s name p1 = Inr (True, s1)"
  shows "create_user s1 name p2 = Inr (False, s1)
       \<and> (\<exists>t t1. users s = Some t \<and> users s1 = Some t1
             \<and> length (user_rows t1) = length (user_rows t) + 1)
       \<and> transactions s1 = transactions s"
  using assms
  by (auto simp: create_user_cases split: option.splits if_splits)

theorem create_user_twice_witness:
  "create_user seeded_store ''Admin'' ''pw'' = Inr (True, two_admins)
   \<and> create_user two_admins ''Admin'' ''other'' = Inr (False, two_admins)"
  using create_user_twice [OF create_Admin, of "''other''"] create_Admin by simp

lemma differs_admin_Admin: "differs_only_in_case ''admin'' ''Admin''"
  by code_simp

text \<open>
  Claim C10, as stated, fails: a username that differs from an existing one only in letter
  case is refused when that very spelling is stored already. After \<^verbatim>\<open>ensure_schema\<close> on
  an empty database and \<^verbatim>\<open>create_user("Admin", "pw")\<close> (which succeeds), the user
  \<^verbatim>\<open>admin\<close> exists and \<^verbatim>\<open>Admin\<close> differs from it only in case, yet a second
  \<^verbatim>\<open>create_user("Admin", "pw")\<close> returns false.
\<close>

theorem case_variant_taken_counterexample:
  "ensure_schema empty_store = Inr seeded_store
   \<and> create_user seeded_store ''Admin'' ''pw'' = Inr (True, two_admins)
   \<and> ''admin'' \<in> set (map username (user_rows (the (users two_admins))))
   \<and> differs_only_in_case ''admin'' ''Admin''
   \<and> create_user two_admins ''Admin'' ''pw'' = Inr (False, two_admins)"
proof -
  have "''admin'' \<in> set (map username (user_rows (the (users two_admins))))"
    by (simp add: two_admins_def)
  moreover have "create_user two_admins ''Admin'' ''pw'' = Inr (False, two_admins)"
    by (simp add: create_user_cases two_admins_def)
  ultimately show ?thesis
    using ensure_schema_empty create_Admin differs_admin_Admin by simp
qed

text \<open>
  Claim C10, amended. On a store whose \<^verbatim>\<open>users\<close> table exists: if \<open>u\<close> is a stored
  username, \<open>v\<close> differs from \<open>u\<close> only in letter case, and \<open>v\<close> itself is not stored, then
  \<^verbatim>\<open>create_user(v, pwd)\<close> returns true and appends one row for \<open>v\<close> with a fresh id and the
  hash of \<open>pwd\<close>; the rows that were there, \<open>u\<close>'s among them, stay, and the transactions
  are untouched.
\<close>

theorem create_user_case_variant:
  assumes "users s = Some t"
    and "u \<in> set (map username (user_rows t))"
    and "differs_only_in_case u v"
    and "v \<notin> set (map username (user_rows t))"
  shows "\<exists>s' t' i. create_user s v pwd = Inr (True, s') \<and> users s' = Some t'
           \<and> user_rows t' = user_rows t @ [\<lparr>uid = i, username = v, password = hash_pwd pwd\<rparr>]
           \<and> i \<notin> set (map uid (user_rows t))
           \<and> u \<in> set (map username (user_rows t')) \<and> v \<in> set (map username (user_rows t'))
           \<and> transactions s' = transactions s"
  using assms new_rowid_fresh [of "user_seq t" "map uid (user_rows t)"]
  by (simp add: create_user_cases)

theorem create_user_case_variant_witness:
  "differs_only_in_case ''admin'' ''Admin''
   \<and> (\<exists>s' t' i. create_user seeded_store ''Admin'' ''pw'' = Inr (True, s')
         \<and> users s' = Some t'
         \<and> user_rows t' =
             [\<lparr>uid = 1, username = ''admin'', password = hash_pwd ''admin''\<rparr>,
              \<lparr>uid = i, username = ''Admin'', password = hash_pwd ''pw''\<rparr>]
         \<and> i \<noteq> 1)"
proof -
  let ?t = "\<lparr>user_rows = [\<lparr>uid = 1, username = ''admin'', password = hash_pwd ''admin''\<rparr>],
             user_seq = 1\<rparr>"
  have u: "users seeded_store = Some ?t" by (simp add: seeded_store_def)
  have m: "''admin'' \<in> set (map username (user_rows ?t))" by simp
  have n: "''Admin'' \<notin> set (map username (user_rows ?t))" by simp
  from create_user_case_variant [OF u m differs_admin_Admin n, of "''pw''"]
  obtain s' t' i where "create_user seeded_store ''Admin'' ''pw'' = Inr (True, s')"
      "users s' = Some t'"
      "user_rows t' = user_rows ?t @ [\<lparr>uid = i, username = ''Admin'', password = hash_pwd ''pw''\<rparr>]"
      "i \<notin> set (map uid (user_rows ?t))"
    by blast
  then have "create_user seeded_store ''Admin'' ''pw'' = Inr (True, s') \<and> users s' = Some t'
      \<and> user_rows t' =
             [\<lparr>uid = 1, username = ''admin'', password = hash_pwd ''admin''\<rparr>,
              \<lparr>uid = i, username = ''Admin'', password = hash_pwd ''pw''\<rparr>]
      \<and> i \<noteq> 1"
    by simp
  then show ?thesis using differs_admin_Admin by blast
qed

subsection \<open>Changing a password\<close>

text \<open>
  Claim C9. On a store whose \<^verbatim>\<open>users\<close> table exists, \<^verbatim>\<open>change_password\<close> returns a store
  with the same transactions, the same id counter and as many user rows in the same
  order; every row keeps its id and its username; a row whose id is not the given one is
  unchanged, and a row whose id is the given one has the new hash as its password. If no
  row has the given id, the store is unchanged.
\<close>

theorem change_password_frame:
  assumes "users s = Some t"
  shows "\<exists>s' t'. change_password s i pwd = Inr s' \<and> transactions s' = transactions s
           \<and> users s' = Some t' \<and> user_seq t' = user_seq t
           \<and> length (user_rows t') = length (user_rows t)
           \<and> (\<forall>k < length (user_rows t).
                 uid (user_rows t' ! k) = uid (user_rows t ! k)
               \<and> username (user_rows t' ! k) = username (user_rows t ! k)
               \<and> (if uid (user_rows t ! k) = i
                  then password (user_rows t' ! k) = hash_pwd pwd
                  else user_rows t' ! k = user_rows t ! k))
           \<and> (i \<notin> set (map uid (user_rows t)) \<longrightarrow> s' = s)"
proof -
  let ?f = "\<lambda>r. if uid r = i then r\<lparr>password := hash_pwd pwd\<rparr> else r"
  let ?s' = "s\<lparr>users := Some (t\<lparr>user_rows := map ?f (user_rows t)\<rparr>)\<rparr>"
  have c: "change_password s i pwd = Inr ?s'"
    using assms by (simp add: change_password_def update_password_def)
  have noop: "?s' = s" if "i \<notin> set (map uid (user_rows t))"
  proof -
    from that have "map ?f (user_rows t) = user_rows t"
      by (intro map_idI) auto
    with assms show ?thesis by simp
  qed
  from c noop show ?thesis by simp
qed

theorem change_password_frame_witness:
  "change_password two_admins 7 ''new'' = Inr two_admins
   \<and> (\<exists>s'. change_password two_admins 2 ''new'' = Inr s'
          \<and> transactions s' = transactions two_admins
          \<and> map uid (user_rows (the (users s'))) = [1, 2]
          \<and> map username (user_rows (the (users s'))) = [''admin'', ''Admin'']
          \<and> map password (user_rows (the (users s'))) = [hash_pwd ''admin'', hash_pwd ''new''])"
proof -
  let ?t = "\<lparr>user_rows =
               [\<lparr>uid = 1, username = ''admin'', password = hash_pwd ''admin''\<rparr>,
                \<lparr>uid = 2, username = ''Admin'', password = hash_pwd ''pw''\<rparr>],
             user_seq = 2\<rparr>"
  have u: "users two_admins = Some ?t" by (simp add: two_admins_def)
  from change_password_frame [OF u, of 7 "''new''"]
  have 1: "change_password two_admins 7 ''new'' = Inr two_admins" by auto
  from change_password_frame [OF u, of 2 "''new''"]
  obtain s' t' where s': "change_password two_admins 2 ''new'' = Inr s'"
      "transactions s' = transactions two_admins" "users s' = Some t'"
      "length (user_rows t') = 2"
    and k: "\<forall>k < 2. uid (user_rows t' ! k) = uid (user_rows ?t ! k)
               \<and> username (user_rows t' ! k) = username (user_rows ?t ! k)
               \<and> (if uid (user_rows ?t ! k) = 2
                  then password (user_rows t' ! k) = hash_pwd ''new''
                  else user_rows t' ! k = user_rows ?t ! k)"
    by auto
  from s'(4) obtain a b where ab: "user_rows t' = [a, b]"
    by (auto simp: length_Suc_conv numeral_2_eq_2)
  from k have "uid (user_rows t' ! 0) = 1 \<and> username (user_rows t' ! 0) = ''admin''
      \<and> user_rows t' ! 0 = \<lparr>uid = 1, username = ''admin'', password = hash_pwd ''admin''\<rparr>"
    by (auto dest: spec [of _ 0])
  moreover from k have "uid (user_rows t' ! 1) = 2 \<and> username (user_rows t' ! 1) = ''Admin''
      \<and> password (user_rows t' ! 1) = hash_pwd ''new''"
    by (auto dest: spec [of _ 1])
  ultimately have "map uid (user_rows t') = [1, 2]
      \<and> map username (user_rows t') = [''admin'', ''Admin'']
      \<and> map password (user_rows t') = [hash_pwd ''admin'', hash_pwd ''new'']"
    using ab by auto
  with s' 1 show ?thesis by auto
qed

subsection \<open>Deleting a transaction\<close>

text \<open>
  Claim C8. On a store whose \<^verbatim>\<open>transactions\<close> table has the \<^verbatim>\<open>user_id\<close> column,
  \<^verbatim>\<open>delete_tx\<close> for user \<open>a\<close> and id \<open>i\<close> returns (it does not raise) a store that differs
  from the old one only in the rows of \<^verbatim>\<open>transactions\<close>: the rows left are the old rows,
  in their order, without those that have both the id \<open>i\<close> and the owner \<open>a\<close>. So a row is
  removed only if its id is \<open>i\<close> and its owner is \<open>a\<close>, and every other row stays. If no row
  with id \<open>i\<close> is owned by \<open>a\<close> (no such id, or another owner's row), the store is unchanged.
\<close>

theorem delete_tx_scoped:
  assumes "transactions s = Some t" and "tx_rows t = Current rows"
  shows "\<exists>s' t' rows'. delete_tx s a i = Inr s' \<and> users s' = users s
           \<and> transactions s' = Some t' \<and> tx_seq t' = tx_seq t \<and> tx_rows t' = Current rows'
           \<and> rows' = filter (\<lambda>r. \<not> (tx_id r = i \<and> user_id r = Some a)) rows
           \<and> (\<forall>r \<in> set rows. r \<notin> set rows' \<longrightarrow> tx_id r = i \<and> user_id r = Some a)
           \<and> (\<forall>r \<in> set rows. tx_id r \<noteq> i \<or> user_id r \<noteq> Some a \<longrightarrow> r \<in> set rows')
           \<and> ((\<forall>r \<in> set rows. tx_id r = i \<longrightarrow> user_id r \<noteq> Some a) \<longrightarrow> s' = s)"
proof -
  let ?rows' = "filter (\<lambda>r. \<not> (tx_id r = i \<and> user_id r = Some a)) rows"
  let ?s' = "s\<lparr>transactions := Some (t\<lparr>tx_rows := Current ?rows'\<rparr>)\<rparr>"
  have d: "delete_tx s a i = Inr ?s'"
    using assms by (simp add: delete_tx_def delete_transaction_def)
  have noop: "?s' = s" if "\<forall>r \<in> set rows. tx_id r = i \<longrightarrow> user_id r \<noteq> Some a"
  proof -
    from that have "?rows' = rows" by (simp add: filter_id_conv)
    with assms show ?thesis by simp
  qed
  from d noop show ?thesis by simp
qed

theorem delete_tx_scoped_witness:
  "delete_tx example_store 1 4 = Inr example_store
   \<and> (\<exists>s' t'. delete_tx example_store 2 4 = Inr s' \<and> transactions s' = Some t'
          \<and> tx_rows t' = Current (butlast example_rows))"
proof -
  let ?t = "\<lparr>tx_rows = Current example_rows, tx_seq = 4\<rparr>"
  have t: "transactions example_store = Some ?t" by (simp add: example_store_def)
  have r: "tx_rows ?t = Current example_rows" by simp
  have n: "\<forall>r \<in> set example_rows. tx_id r = 4 \<longrightarrow> user_id r \<noteq> Some 1"
    by (simp add: example_rows_def)
  from delete_tx_scoped [OF t r, of 1 4] n
  have 1: "delete_tx example_store 1 4 = Inr example_store" by auto
  have f: "filter (\<lambda>r. \<not> (tx_id r = 4 \<and> user_id r = Some 2)) example_rows
             = butlast example_rows"
    by (simp add: example_rows_def)
  from delete_tx_scoped [OF t r, of 2 4] f
  have 2: "\<exists>s' t'. delete_tx example_store 2 4 = Inr s' \<and> transactions s' = Some t'
          \<and> tx_rows t' = Current (butlast example_rows)" by auto
  from 1 2 show ?thesis by simp
qed

subsection \<open>Dates and their text\<close>

lemma is_digit_digit [simp]: "is_digit (digit n)"
  by (simp add: is_digit_def digit_def)

lemma digit_val_digit [simp]: "digit_val (digit n) = n mod 10"
  by (simp add: digit_val_def digit_def)

lemma digit_digit_val: "is_digit c \<Longrightarrow> digit (digit_val c) = c"
proof -
  assume a: "is_digit c"
  define n :: nat where "n = of_char c"
  from a have "48 \<le> n" "n \<le> 57" by (simp_all add: is_digit_def n_def)
  then have "n - 48 < 10" by simp
  then have "(n - 48) mod 10 = n - 48" by (rule mod_less)
  with \<open>48 \<le> n\<close> have "48 + (n - 48) mod 10 = n" by simp
  then have "char_of (48 + (n - 48) mod 10) = c" by (simp add: n_def)
  then show ?thesis by (simp add: digit_def digit_val_def n_def)
qed

lemma digit_mod: "digit (n mod 10) = digit n"
  by (simp add: digit_def)

lemma div_100: "(n::nat) div 100 = n div 10 div 10"
  by (simp add: div_mult2_eq [symmetric])

lemma div_1000: "(n::nat) div 1000 = n div 10 div 10 div 10"
  by (simp add: div_mult2_eq [symmetric])

lemma number_snoc: "number (cs @ [c]) = 10 * number cs + digit_val c"
  by (simp add: number_def)

lemma digit_val_le: "is_digit c \<Longrightarrow> digit_val c \<le> 9"
  by (auto simp: digit_val_def is_digit_def)

lemma digit_step:
  assumes "is_digit c"
  shows "digit (10 * n + digit_val c) = c" and "(10 * n + digit_val c) div 10 = n"
proof -
  from assms have le: "digit_val c \<le> 9" by (rule digit_val_le)
  then have "(10 * n + digit_val c) mod 10 = digit_val c" by simp
  then have "digit (10 * n + digit_val c) = digit (digit_val c)"
    by (metis digit_mod)
  with assms show "digit (10 * n + digit_val c) = c" by (simp add: digit_digit_val)
  from le show "(10 * n + digit_val c) div 10 = n" by simp
qed

lemma digits4:
  assumes "is_digit a" "is_digit b" "is_digit c" "is_digit d"
  shows "[digit (number [a, b, c, d] div 1000), digit (number [a, b, c, d] div 100),
          digit (number [a, b, c, d] div 10), digit (number [a, b, c, d])] = [a, b, c, d]"
proof -
  have n: "number [a, b, c, d] =
      10 * (10 * (10 * (10 * 0 + digit_val a) + digit_val b) + digit_val c) + digit_val d"
    by (simp add: number_def)
  show ?thesis
    unfolding n div_100 div_1000
    by (simp only: digit_step [OF assms(4)] digit_step [OF assms(3)]
          digit_step [OF assms(2)] digit_step [OF assms(1)])
qed

lemma digits2:
  assumes "is_digit a" "is_digit b"
  shows "[digit (number [a, b] div 10), digit (number [a, b])] = [a, b]"
proof -
  have n: "number [a, b] = 10 * (10 * 0 + digit_val a) + digit_val b"
    by (simp add: number_def)
  show ?thesis
    unfolding n
    by (simp only: digit_step [OF assms(2)] digit_step [OF assms(1)])
qed

lemma parse_date_isoformat:
  assumes "parse_date s = Inr d"
  shows "isoformat d = s" and "valid_date d"
proof -
  from assms obtain c0 c1 c2 c3 c4 c5 c6 c7 c8 c9
    where s: "s = [c0, c1, c2, c3, c4, c5, c6, c7, c8, c9]"
    by (cases s rule: parse_date.cases) simp_all
  have p: "parse_date s =
     (if c4 = CHR ''-'' \<and> c7 = CHR ''-'' \<and> list_all is_digit [c0, c1, c2, c3, c5, c6, c8, c9]
      then if valid_date \<lparr>year = number [c0, c1, c2, c3], month = number [c5, c6],
                 day = number [c8, c9]\<rparr>
             \<and> 1678 \<le> number [c0, c1, c2, c3] \<and> number [c0, c1, c2, c3] \<le> 2261
           then Inr \<lparr>year = number [c0, c1, c2, c3], month = number [c5, c6],
                 day = number [c8, c9]\<rparr>
           else Inl ValueError
      else Inl ValueError)"
    unfolding s by (simp add: Let_def)
  from assms have c: "c4 = CHR ''-'' \<and> c7 = CHR ''-'' \<and>
      list_all is_digit [c0, c1, c2, c3, c5, c6, c8, c9]"
    unfolding p by (meson Inl_Inr_False)
  with assms have c': "valid_date \<lparr>year = number [c0, c1, c2, c3], month = number [c5, c6],
                 day = number [c8, c9]\<rparr>
             \<and> 1678 \<le> number [c0, c1, c2, c3] \<and> number [c0, c1, c2, c3] \<le> 2261"
    unfolding p by (meson Inl_Inr_False)
  with c assms have d: "d = \<lparr>year = number [c0, c1, c2, c3], month = number [c5, c6],
                   day = number [c8, c9]\<rparr>"
    unfolding p by simp
  from c' d show "valid_date d" by simp
  from c have dig: "is_digit c0" "is_digit c1" "is_digit c2" "is_digit c3"
             "is_digit c5" "is_digit c6" "is_digit c8" "is_digit c9"
    by simp_all
  have "isoformat d = digits4s @ CHR ''-'' # digits2m @ CHR ''-'' # digits2d"
    if "digits4s = [digit (number [c0, c1, c2, c3] div 1000), digit (number [c0, c1, c2, c3] div 100),
          digit (number [c0, c1, c2, c3] div 10), digit (number [c0, c1, c2, c3])]"
     and "digits2m = [digit (number [c5, c6] div 10), digit (number [c5, c6])]"
     and "digits2d = [digit (number [c8, c9] div 10), digit (number [c8, c9])]"
    for digits4s digits2m digits2d
    unfolding that d by (simp add: isoformat_def)
  from this [OF refl refl refl]
  show "isoformat d = s"
    unfolding digits4 [OF dig(1-4)] digits2 [OF dig(5,6)] digits2 [OF dig(7,8)] s
    using c by simp
qed

lemma number2: "n \<le> 99 \<Longrightarrow> number [digit (n div 10), digit n] = n"
proof -
  assume "n \<le> 99"
  then have "n div 10 mod 10 = n div 10" by simp
  then show ?thesis by (simp add: number_def)
qed

lemma number4:
  assumes "n \<le> 9999"
  shows "number [digit (n div 1000), digit (n div 100), digit (n div 10), digit n] = n"
proof -
  define q1 q2 q3 where "q1 = n div 10" and "q2 = q1 div 10" and "q3 = q2 div 10"
  from assms have "q3 mod 10 = q3" by (simp add: q1_def q2_def q3_def)
  moreover have "10 * q3 + q2 mod 10 = q2" by (simp add: q3_def)
  moreover have "10 * q2 + q1 mod 10 = q1" by (simp add: q2_def)
  moreover have "10 * q1 + n mod 10 = n" by (simp add: q1_def)
  ultimately have "10 * (10 * (10 * (q3 mod 10) + q2 mod 10) + q1 mod 10) + n mod 10 = n"
    by simp
  then show ?thesis
    by (simp add: number_def div_100 div_1000 q1_def q2_def q3_def)
qed

lemma isoformat_parse_date:
  assumes "valid_date d" and "1678 \<le> year d" and "year d \<le> 2261"
  shows "parse_date (isoformat d) = Inr d"
proof -
  obtain y m dd where d: "d = \<lparr>year = y, month = m, day = dd\<rparr>" by (cases d)
  from assms(1) have "m \<le> 99" "dd \<le> 99" "y \<le> 9999"
    by (auto simp: d valid_date_def days_in_month_def split: if_splits)
  then have n: "number [digit (y div 1000), digit (y div 100), digit (y div 10), digit y] = y"
      "number [digit (m div 10), digit m] = m" "number [digit (dd div 10), digit dd] = dd"
    by (simp_all add: number4 number2)
  show ?thesis
    using assms unfolding d isoformat_def by (simp add: n Let_def)
qed



lemma to_datetime_valid:
  "to_datetime ss = Inr ds \<Longrightarrow> \<forall>d \<in> set ds. valid_date d"
proof (induction ss arbitrary: ds)
  case Nil
  then show ?case by simp
next
  case (Cons s ss)
  then show ?case
    by (auto simp: bind_eq_Inr parse_date_isoformat)
qed


text \<open>
  The table is ordered by the text of \<^verbatim>\<open>date\<close>. On the texts that \<^verbatim>\<open>isoformat\<close> writes, the
  order of the strings is the order of the calendar: a frame that is sorted by its
  \<^verbatim>\<open>date\<close> column is in chronological order.
\<close>

lemma of_char_digit: "(of_char (digit n) :: nat) = 48 + n mod 10"
  by (simp add: digit_def)

lemma digit_less_iff: "a \<le> 9 \<Longrightarrow> b \<le> 9 \<Longrightarrow> digit a < digit b \<longleftrightarrow> a < b"
  by (simp add: less_char_def of_char_digit)

lemma digit_eq_iff: "a \<le> 9 \<Longrightarrow> b \<le> 9 \<Longrightarrow> digit a = digit b \<longleftrightarrow> a = b"
proof -
  assume "a \<le> 9" "b \<le> 9"
  then have "a mod 10 = a" "b mod 10 = b" by simp_all
  then show ?thesis by (metis digit_val_digit)
qed

lemma dec4:
  assumes "n \<le> 9999"
  obtains a3 a2 a1 a0 where "a3 \<le> 9" "a2 \<le> 9" "a1 \<le> 9" "a0 \<le> 9"
    "n = 1000 * a3 + 100 * a2 + 10 * a1 + a0"
    "[digit (n div 1000), digit (n div 100), digit (n div 10), digit n]
       = [digit a3, digit a2, digit a1, digit a0]"
proof -
  define a3 a2 a1 a0 where "a3 = n div 1000 mod 10" and "a2 = n div 100 mod 10"
    and "a1 = n div 10 mod 10" and "a0 = n mod 10"
  have b: "a3 \<le> 9" "a2 \<le> 9" "a1 \<le> 9" "a0 \<le> 9"
    by (simp_all add: a3_def a2_def a1_def a0_def)
  have "number [digit (n div 1000), digit (n div 100), digit (n div 10), digit n]
          = 10 * (10 * (10 * a3 + a2) + a1) + a0"
    by (simp add: number_def a3_def a2_def a1_def a0_def)
  with number4 [OF assms] have e: "n = 1000 * a3 + 100 * a2 + 10 * a1 + a0" by simp
  have "[digit (n div 1000), digit (n div 100), digit (n div 10), digit n]
       = [digit a3, digit a2, digit a1, digit a0]"
    unfolding a3_def a2_def a1_def a0_def digit_mod ..
  with b e that show ?thesis by blast
qed

lemma dec2:
  assumes "n \<le> 99"
  obtains a1 a0 where "a1 \<le> 9" "a0 \<le> 9" "n = 10 * a1 + a0"
    "[digit (n div 10), digit n] = [digit a1, digit a0]"
proof -
  define a1 a0 where "a1 = n div 10 mod 10" and "a0 = n mod 10"
  have b: "a1 \<le> 9" "a0 \<le> 9" by (simp_all add: a1_def a0_def)
  have "number [digit (n div 10), digit n] = 10 * a1 + a0"
    by (simp add: number_def a1_def a0_def)
  with number2 [OF assms] have e: "n = 10 * a1 + a0" by simp
  have "[digit (n div 10), digit n] = [digit a1, digit a0]"
    unfolding a1_def a0_def digit_mod ..
  with b e that show ?thesis by blast
qed

lemma isoformat_split:
  "isoformat d =
     [digit (year d div 1000), digit (year d div 100), digit (year d div 10), digit (year d)]
     @ CHR ''-'' # [digit (month d div 10), digit (month d)]
     @ CHR ''-'' # [digit (day d div 10), digit (day d)]"
  by (simp add: isoformat_def)

lemma isoformat_le_date_le:
  assumes "valid_date a" and "valid_date b" and "isoformat a \<le> isoformat b"
  shows "date_le a b"
proof -
  from assms(1) have ba: "year a \<le> 9999" "month a \<le> 99" "day a \<le> 99"
    by (auto simp: valid_date_def days_in_month_def split: if_splits)
  from assms(2) have bb: "year b \<le> 9999" "month b \<le> 99" "day b \<le> 99"
    by (auto simp: valid_date_def days_in_month_def split: if_splits)
  from ba(1) obtain y3 y2 y1 y0 where ya: "y3 \<le> 9" "y2 \<le> 9" "y1 \<le> 9" "y0 \<le> 9"
    "year a = 1000 * y3 + 100 * y2 + 10 * y1 + y0"
    "[digit (year a div 1000), digit (year a div 100), digit (year a div 10), digit (year a)]
       = [digit y3, digit y2, digit y1, digit y0]" by (rule dec4)
  from bb(1) obtain z3 z2 z1 z0 where yb: "z3 \<le> 9" "z2 \<le> 9" "z1 \<le> 9" "z0 \<le> 9"
    "year b = 1000 * z3 + 100 * z2 + 10 * z1 + z0"
    "[digit (year b div 1000), digit (year b div 100), digit (year b div 10), digit (year b)]
       = [digit z3, digit z2, digit z1, digit z0]" by (rule dec4)
  from ba(2) obtain m1 m0 where ma: "m1 \<le> 9" "m0 \<le> 9" "month a = 10 * m1 + m0"
    "[digit (month a div 10), digit (month a)] = [digit m1, digit m0]" by (rule dec2)
  from bb(2) obtain n1 n0 where mb: "n1 \<le> 9" "n0 \<le> 9" "month b = 10 * n1 + n0"
    "[digit (month b div 10), digit (month b)] = [digit n1, digit n0]" by (rule dec2)
  from ba(3) obtain d1 d0 where da: "d1 \<le> 9" "d0 \<le> 9" "day a = 10 * d1 + d0"
    "[digit (day a div 10), digit (day a)] = [digit d1, digit d0]" by (rule dec2)
  from bb(3) obtain e1 e0 where db: "e1 \<le> 9" "e0 \<le> 9" "day b = 10 * e1 + e0"
    "[digit (day b div 10), digit (day b)] = [digit e1, digit e0]" by (rule dec2)
  from assms(3) have
    "y3 < z3 \<or> y3 = z3 \<and> (y2 < z2 \<or> y2 = z2 \<and> (y1 < z1 \<or> y1 = z1 \<and> (y0 < z0 \<or> y0 = z0 \<and>
      (m1 < n1 \<or> m1 = n1 \<and> (m0 < n0 \<or> m0 = n0 \<and>
        (d1 < e1 \<or> d1 = e1 \<and> (d0 < e0 \<or> d0 = e0)))))))"
    unfolding isoformat_split ya(6) yb(6) ma(4) mb(4) da(4) db(4)
    using ya(1-4) yb(1-4) ma(1,2) mb(1,2) da(1,2) db(1,2)
    by (simp add: digit_less_iff digit_eq_iff less_eq_char_def of_char_digit)
  then show ?thesis
    unfolding date_le_def ya(5) yb(5) ma(3) mb(3) da(3) db(3)
    using ya(1-4) yb(1-4) ma(1,2) mb(1,2) da(1,2) db(1,2)
    by linarith
qed

lemma sorted_dates_chronological:
  assumes "sorted (map isoformat ds)" and "\<forall>d \<in> set ds. valid_date d"
  shows "sorted_wrt date_le ds"
  using assms by (induction ds) (auto simp: isoformat_le_date_le)

lemma chronological_example:
  "date_le \<lparr>year = 2024, month = 1, day = 20\<rparr> \<lparr>year = 2024, month = 2, day = 1\<rparr>
   \<and> \<not> date_le \<lparr>year = 2024, month = 2, day = 1\<rparr> \<lparr>year = 2024, month = 1, day = 20\<rparr>"
  by (simp add: date_le_def)

subsection \<open>Fetching transactions\<close>






lemma with_month_simps [simp]:
  "tx_id (with_month r) = tx_id r" "date (with_month r) = date r"
  "category (with_month r) = category r" "amount (with_month r) = amount r"
  "user_id (with_month r) = user_id r" "Month (with_month r) = take 7 (date r)"
  by (simp_all add: with_month_def)

lemma inj_with_month: "inj with_month"
proof (rule injI)
  fix x y :: tx
  assume "with_month x = with_month y"
  then have "tx_id x = tx_id y \<and> date x = date y \<and> category x = category y
      \<and> amount x = amount y \<and> user_id x = user_id y"
    by (metis with_month_simps(1-5))
  then show "x = y" by simp
qed


lemma iso_example [simp]:
  "is_iso_date ''2024-01-15''" "is_iso_date ''2024-01-20''" "is_iso_date ''2024-02-01''"
  by (simp_all add: is_iso_date_def is_digit_def number_def digit_val_def valid_date_def
        days_in_month_def is_leap_def)



subsection \<open>Migration of a table without \<^verbatim>\<open>user_id\<close>\<close>



subsection \<open>Monthly totals\<close>



























subsection \<open>The constraints of \<^verbatim>\<open>users\<close> are kept\<close>

text \<open>
  The hypotheses on the store that the theorems above make hold on every store the program
  produces: \<^verbatim>\<open>ensure_schema\<close> establishes \<open>users_ok\<close> and the account functions keep it,
  and the dates \<^verbatim>\<open>add_tx\<close> writes are ISO dates.
\<close>

lemma users_ok_ensure_schema:
  assumes "users s = None \<or> users_ok s" and "ensure_schema s = Inr s'"
  shows "users_ok s'"
  using assms
  by (cases s)
     (auto simp: users_ok_def ensure_schema_def create_table_users_def count_users_def
        insert_user_def create_table_transactions_def table_info_transactions_def
        add_column_user_id_def backfill_user_id_def Let_def new_rowid_def
        split: option.splits tx_rows.splits if_splits)

lemma users_ok_create_user:
  assumes "users_ok s" and "create_user s name pwd = Inr (b, s')"
  shows "users_ok s'"
proof -
  from assms(1) obtain t where t: "users s = Some t"
    "distinct (map uid (user_rows t))" "distinct (map username (user_rows t))"
    by (auto simp: users_ok_def split: option.splits)
  show ?thesis
  proof (cases "name \<in> set (map username (user_rows t))")
    case True
    with assms t show ?thesis by (simp add: create_user_cases)
  next
    case False
    with assms(2) t new_rowid_fresh [of "user_seq t" "map uid (user_rows t)"]
    show ?thesis by (auto simp: create_user_cases users_ok_def)
  qed
qed

lemma users_ok_change_password:
  assumes "users_ok s" and "change_password s i pwd = Inr s'"
  shows "users_ok s'"
proof -
  from assms(1) obtain t where t: "users s = Some t"
    "distinct (map uid (user_rows t))" "distinct (map username (user_rows t))"
    by (auto simp: users_ok_def split: option.splits)
  let ?f = "\<lambda>r. if uid r = i then r\<lparr>password := hash_pwd pwd\<rparr> else r"
  have "map uid (map ?f (user_rows t)) = map uid (user_rows t)"
       "map username (map ?f (user_rows t)) = map username (user_rows t)"
    by (simp_all add: comp_def)
  with assms(2) t show ?thesis
    by (auto simp: change_password_def update_password_def users_ok_def simp del: map_map)
qed

lemma is_iso_date_isoformat:
  "valid_date d \<Longrightarrow> 1678 \<le> year d \<Longrightarrow> year d \<le> 2261 \<Longrightarrow> is_iso_date (isoformat d)"
  by (simp add: is_iso_date_def isoformat_parse_date)

subsection \<open>Checks of the model against known values\<close>

text \<open>
  The SHA-256 digest of \<^verbatim>\<open>admin\<close>, and the example store as the result of running the
  program's functions from an empty database.
\<close>

lemma sha256_admin:
  "hash_pwd ''admin'' = ''8c6976e5b5410415bde908bd4dee15dfb167a9c873fc4bb8a81f6f2ab448a918''"
  by code_simp

lemma example_store_built:
  "bind (ensure_schema empty_store) (\<lambda>s0.
   bind (create_user s0 ''Admin'' ''pw'') (\<lambda>(b, s1).
   bind (add_tx s1 1 \<lparr>year = 2024, month = 2, day = 1\<rparr> ''bonus'' 500) (\<lambda>s2.
   bind (add_tx s2 1 \<lparr>year = 2024, month = 1, day = 15\<rparr> ''salary'' 1000) (\<lambda>s3.
   bind (add_tx s3 1 \<lparr>year = 2024, month = 1, day = 20\<rparr> ''rent'' (- 200)) (\<lambda>s4.
   add_tx s4 2 \<lparr>year = 2024, month = 1, day = 20\<rparr> ''gift'' 300)))))
   = Inr example_store"
proof -
  have i: "isoformat \<lparr>year = 2024, month = 2, day = 1\<rparr> = ''2024-02-01''"
    "isoformat \<lparr>year = 2024, month = 1, day = 15\<rparr> = ''2024-01-15''"
    "isoformat \<lparr>year = 2024, month = 1, day = 20\<rparr> = ''2024-01-20''"
    by code_simp+
  show ?thesis
    unfolding ensure_schema_empty bind_Inr create_Admin prod.case add_tx_def i
    by (simp add: insert_transaction_def two_admins_def example_store_def example_rows_def
          new_rowid_def)
qed

end
